theory Spec2Isabelle
  imports Complex_Main "HOL-Library.Option_ord"
begin

section \<open>The order monitor of the event producer\<close>

text \<open>
  A shallow embedding of \<^verbatim>\<open>src/scripts/EventProducer.py\<close>: the classification of an
  order row (\<^verbatim>\<open>_determine_order_event_type\<close>), the construction of an
  \<^verbatim>\<open>OrderEvent\<close>, the publish (\<^verbatim>\<open>send_event\<close>) and the body of the polling loop
  (\<^verbatim>\<open>monitor_orders\<close>) with its watermark \<^verbatim>\<open>last_processed['orders']\<close>.
\<close>

subsection \<open>Time\<close>

text \<open>
  A \<^verbatim>\<open>datetime\<close> is a point of the time line with microsecond resolution, counted in
  microseconds; a \<^verbatim>\<open>timedelta\<close> is a signed number of microseconds, and the difference
  of two datetimes is the difference of their counts. \<^verbatim>\<open>timedelta.total_seconds()\<close> is the
  quotient by \<open>10\<^sup>6\<close>. Python rounds that quotient to a double; the rounding is monotone and
  60 is a double, so comparing the double with 60 and comparing the exact quotient with 60
  give the same answer for every whole number of microseconds.
\<close>

type_synonym datetime = int
type_synonym timedelta = int

definition total_seconds :: "timedelta \<Rightarrow> rat" where
  "total_seconds d = of_int d / 1000000"

subsection \<open>Rows and events\<close>

text \<open>
  The row that the query of \<^verbatim>\<open>monitor_orders\<close> selects, column by column:
  \<^verbatim>\<open>order[0]\<close> is \<open>o_order_id\<close>, ..., \<^verbatim>\<open>order[9]\<close> is \<open>o_order_status\<close>,
  \<^verbatim>\<open>order[11]\<close> is \<open>o_created_at\<close> and \<^verbatim>\<open>order[12]\<close> is \<open>o_updated_at\<close>. The columns
  hold values of the types that the code assumes when it subtracts, converts and formats them.
\<close>

record order_row =
  o_order_id :: int
  o_customer_id :: int
  o_product_id :: int
  o_order_date :: datetime
  o_quantity :: int
  o_unit_price :: rat
  o_discount_amount :: rat
  o_tax_amount :: rat
  o_total_amount :: rat
  o_order_status :: string
  o_payment_method :: string
  o_created_at :: datetime
  o_updated_at :: datetime

text \<open>
  The metadata bag of an event holds strings and floats. The type \<open>'f\<close> stands for Python's
  \<^verbatim>\<open>float\<close>; the conversion \<^verbatim>\<open>float(...)\<close> and the formatting \<^verbatim>\<open>.isoformat()\<close> belong to
  the Python library and are parameters \<open>float_of\<close> and \<open>isoformat\<close> of the functions below.
\<close>

datatype 'f meta_value = MStr string | MFloat 'f

record 'f order_event =
  order_id :: int
  customer_id :: int
  product_id :: int
  event_type :: string
  order_amount :: 'f
  quantity :: int
  discount_amount :: 'f
  tax_amount :: 'f
  order_status :: string
  payment_method :: string
  timestamp :: string
  metadata :: "(string \<times> 'f meta_value) list"

subsection \<open>Classification\<close>

text \<open>The dictionary literal \<^verbatim>\<open>status_map\<close> and \<^verbatim>\<open>dict.get(key, default)\<close>.\<close>

definition status_map :: "(string \<times> string) list" where
  "status_map =
     [(''PENDING'', ''created''),
      (''CONFIRMED'', ''confirmed''),
      (''SHIPPED'', ''shipped''),
      (''DELIVERED'', ''delivered''),
      (''CANCELLED'', ''cancelled'')]"

definition dict_get :: "('k \<times> 'v) list \<Rightarrow> 'k \<Rightarrow> 'v \<Rightarrow> 'v" where
  "dict_get d k dflt = (case map_of d k of None \<Rightarrow> dflt | Some v \<Rightarrow> v)"

definition determine_order_event_type :: "order_row \<Rightarrow> string" where
  "determine_order_event_type order =
     (let created_at = o_created_at order;
          updated_at = o_updated_at order;
          order_status = o_order_status order
      in if \<bar>total_seconds (updated_at - created_at)\<bar> < 60 then ''created''
         else dict_get status_map order_status ''updated'')"

text \<open>The \<^verbatim>\<open>OrderEvent(...)\<close> that \<^verbatim>\<open>monitor_orders\<close> builds from a row and its event type.\<close>

definition make_order_event ::
  "(rat \<Rightarrow> 'f) \<Rightarrow> (datetime \<Rightarrow> string) \<Rightarrow> order_row \<Rightarrow> string \<Rightarrow> 'f order_event" where
  "make_order_event float_of isoformat order ev_type =
     \<lparr>order_id = o_order_id order,
      customer_id = o_customer_id order,
      product_id = o_product_id order,
      event_type = ev_type,
      order_amount = float_of (o_total_amount order),
      quantity = o_quantity order,
      discount_amount = float_of (o_discount_amount order),
      tax_amount = float_of (o_tax_amount order),
      order_status = o_order_status order,
      payment_method = o_payment_method order,
      timestamp = isoformat (o_updated_at order),
      metadata = [(''order_date'', MStr (isoformat (o_order_date order))),
                  (''unit_price'', MFloat (float_of (o_unit_price order)))]\<rparr>"

subsection \<open>The query against the source table\<close>

text \<open>
  The SQL text that \<^verbatim>\<open>monitor_orders\<close> assembles has three variable parts: the
  \<^verbatim>\<open>WHERE updated_at > '...'\<close> clause, present only when \<^verbatim>\<open>last_processed['orders']\<close> is
  truthy (every datetime is), the fixed \<^verbatim>\<open>ORDER BY updated_at ASC\<close> and the fixed
  \<^verbatim>\<open>LIMIT 100\<close>.
\<close>

datatype ordering = Unordered | UpdatedAtAsc

record query =
  q_where :: "datetime option"
  q_order_by :: ordering
  q_limit :: nat

definition orders_query :: "datetime option \<Rightarrow> query" where
  "orders_query watermark =
     (let where_clause = (case watermark of None \<Rightarrow> None | Some t \<Rightarrow> Some t)
      in \<lparr>q_where = where_clause, q_order_by = UpdatedAtAsc, q_limit = 100\<rparr>)"

text \<open>
  What the database answers: the rows that pass the \<^verbatim>\<open>WHERE\<close> clause, ordered, cut at the
  limit. SQL leaves the order of rows with equal keys open; here they keep the order they have
  in the table.
\<close>

definition selected :: "query \<Rightarrow> order_row list \<Rightarrow> order_row list" where
  "selected q tbl =
     (case q_where q of None \<Rightarrow> tbl | Some t \<Rightarrow> filter (\<lambda>r. t < o_updated_at r) tbl)"

definition ordered :: "query \<Rightarrow> order_row list \<Rightarrow> order_row list" where
  "ordered q rows =
     (case q_order_by q of Unordered \<Rightarrow> rows | UpdatedAtAsc \<Rightarrow> sort_key o_updated_at rows)"

definition fetchall :: "query \<Rightarrow> order_row list \<Rightarrow> order_row list" where
  "fetchall q tbl = take (q_limit q) (ordered q (selected q tbl))"

subsection \<open>The producer, the broker and one polling cycle\<close>

text \<open>
  The dictionary \<^verbatim>\<open>last_processed\<close> has the three fixed keys \<^verbatim>\<open>'orders'\<close>,
  \<^verbatim>\<open>'products'\<close> and \<^verbatim>\<open>'customers'\<close>; \<open>None\<close> is Python's \<^verbatim>\<open>None\<close>. The world holds
  the two fields of the producer that the loop reads and writes, and the messages that the broker
  has acknowledged so far, oldest first.
\<close>

record watermarks =
  wm_orders :: "datetime option"
  wm_products :: "datetime option"
  wm_customers :: "datetime option"

record 'f world =
  last_processed :: watermarks
  running :: bool
  acked :: "(string \<times> 'f order_event) list"

text \<open>
  \<^verbatim>\<open>EventProducer.__init__\<close>: a new producer object in a world whose broker keeps what it has.
\<close>

definition event_producer_init :: "'f world \<Rightarrow> 'f world" where
  "event_producer_init w =
     w\<lparr>last_processed := \<lparr>wm_orders = None, wm_products = None, wm_customers = None\<rparr>,
       running := True\<rparr>"

text \<open>
  What the broker does with one publish: it acknowledges within the ten seconds that
  \<^verbatim>\<open>future.get(timeout=10)\<close> waits, or the send fails, or the acknowledgement does not arrive
  in time. The last two raise a \<^verbatim>\<open>KafkaError\<close> (\<^verbatim>\<open>KafkaTimeoutError\<close> is one), which
  \<^verbatim>\<open>send_event\<close> logs and raises again.
\<close>

datatype send_result = Ack | SendFails | AckTimeout

datatype error = DatabaseError | KafkaError | KafkaTimeoutError

definition send_event ::
  "send_result \<Rightarrow> string \<Rightarrow> 'f order_event \<Rightarrow> 'f world \<Rightarrow> error + 'f world" where
  "send_event outcome topic event_data w =
     (case outcome of
        Ack \<Rightarrow> Inr (w\<lparr>acked := acked w @ [(topic, event_data)]\<rparr>)
      | SendFails \<Rightarrow> Inl KafkaError
      | AckTimeout \<Rightarrow> Inl KafkaTimeoutError)"

text \<open>
  The \<^verbatim>\<open>for order in orders\<close> loop. \<open>broker n\<close> is the broker's answer to the \<open>n\<close>-th publish
  from now on. An exception leaves the loop with the world as it is at that moment; the result
  carries the exception that the \<^verbatim>\<open>except\<close> clause of the cycle logs.
\<close>

fun process_orders ::
  "(rat \<Rightarrow> 'f) \<Rightarrow> (datetime \<Rightarrow> string) \<Rightarrow> (nat \<Rightarrow> send_result) \<Rightarrow> order_row list \<Rightarrow> 'f world
     \<Rightarrow> error option \<times> 'f world" where
  "process_orders float_of isoformat broker [] w = (None, w)"
| "process_orders float_of isoformat broker (order # rest) w =
     (let ev_type = determine_order_event_type order;
          order_event = make_order_event float_of isoformat order ev_type
      in case send_event (broker 0) ''orders'' order_event w of
           Inl e \<Rightarrow> (Some e, w)
         | Inr w' \<Rightarrow>
             process_orders float_of isoformat (\<lambda>n. broker (Suc n)) rest
               (w'\<lparr>last_processed := (last_processed w')\<lparr>wm_orders := Some (o_updated_at order)\<rparr>\<rparr>))"

text \<open>
  One pass through the body of \<^verbatim>\<open>while self.running\<close>: connect, query, process the batch.
  The source either refuses the connection, fails the query, or holds a table.
\<close>

datatype source = ConnectFails | ExecuteFails | Table "order_row list"

definition monitor_orders_cycle ::
  "(rat \<Rightarrow> 'f) \<Rightarrow> (datetime \<Rightarrow> string) \<Rightarrow> source \<Rightarrow> (nat \<Rightarrow> send_result) \<Rightarrow> 'f world
     \<Rightarrow> error option \<times> 'f world" where
  "monitor_orders_cycle float_of isoformat db broker w =
     (case db of
        ConnectFails \<Rightarrow> (Some DatabaseError, w)
      | ExecuteFails \<Rightarrow> (Some DatabaseError, w)
      | Table tbl \<Rightarrow>
          (let orders = fetchall (orders_query (wm_orders (last_processed w))) tbl
           in process_orders float_of isoformat broker orders w))"

subsection \<open>Notions used in the statements\<close>

text \<open>
  The message that the loop publishes for a row, the exception that a broker answer raises,
  and the world once the loop has delivered the rows \<open>rows\<close> one after the other: their
  messages are appended to the acknowledged ones and the watermark is the modification time of
  the last of them.
\<close>

definition order_message ::
  "(rat \<Rightarrow> 'f) \<Rightarrow> (datetime \<Rightarrow> string) \<Rightarrow> order_row \<Rightarrow> string \<times> 'f order_event" where
  "order_message float_of isoformat order =
     (''orders'', make_order_event float_of isoformat order (determine_order_event_type order))"

definition raised :: "send_result \<Rightarrow> error option" where
  "raised outcome =
     (case outcome of
        Ack \<Rightarrow> None
      | SendFails \<Rightarrow> Some KafkaError
      | AckTimeout \<Rightarrow> Some KafkaTimeoutError)"

definition delivered ::
  "(rat \<Rightarrow> 'f) \<Rightarrow> (datetime \<Rightarrow> string) \<Rightarrow> order_row list \<Rightarrow> 'f world \<Rightarrow> 'f world" where
  "delivered float_of isoformat rows w =
     w\<lparr>acked := acked w @ map (order_message float_of isoformat) rows,
       last_processed := (last_processed w)
          \<lparr>wm_orders := (if rows = [] then wm_orders (last_processed w)
                         else Some (o_updated_at (last rows)))\<rparr>\<rparr>"

text \<open>
  The watermark after each step of the loop: entry \<open>k\<close> is the watermark once the loop has
  gone through the first \<open>k\<close> rows of the batch (or has left them through an exception).
\<close>

definition watermark_after ::
  "(rat \<Rightarrow> 'f) \<Rightarrow> (datetime \<Rightarrow> string) \<Rightarrow> (nat \<Rightarrow> send_result) \<Rightarrow> order_row list \<Rightarrow> 'f world
     \<Rightarrow> nat \<Rightarrow> datetime option" where
  "watermark_after float_of isoformat broker batch w k =
     wm_orders (last_processed (snd (process_orders float_of isoformat broker (take k batch) w)))"

definition watermark_trace ::
  "(rat \<Rightarrow> 'f) \<Rightarrow> (datetime \<Rightarrow> string) \<Rightarrow> (nat \<Rightarrow> send_result) \<Rightarrow> order_row list \<Rightarrow> 'f world
     \<Rightarrow> datetime option list" where
  "watermark_trace float_of isoformat broker batch w =
     map (watermark_after float_of isoformat broker batch w) [0..<Suc (length batch)]"

subsection \<open>Concrete inputs for the examples\<close>

text \<open>
  Times in whole seconds, an order row with given id, creation time, modification time and
  status, a world with a new producer and an empty topic, a broker that fails exactly the
  \<open>k\<close>-th publish and one that acknowledges all. The amounts of the example rows are small
  whole numbers, which \<^verbatim>\<open>float\<close> keeps as they are; no example depends on the text that
  the formatting of a datetime gives.
\<close>

definition sec :: "int \<Rightarrow> datetime" where
  "sec n = 1000000 * n"

definition order_at :: "int \<Rightarrow> datetime \<Rightarrow> datetime \<Rightarrow> string \<Rightarrow> order_row" where
  "order_at n created updated status =
     \<lparr>o_order_id = n, o_customer_id = 7, o_product_id = 3, o_order_date = created,
      o_quantity = 2, o_unit_price = 10, o_discount_amount = 0, o_tax_amount = 1,
      o_total_amount = 21, o_order_status = status, o_payment_method = ''PAYPAL'',
      o_created_at = created, o_updated_at = updated\<rparr>"

definition fresh_world :: "'f world" where
  "fresh_world =
     \<lparr>last_processed = \<lparr>wm_orders = None, wm_products = None, wm_customers = None\<rparr>,
      running = True, acked = []\<rparr>"

definition fails_at :: "nat \<Rightarrow> nat \<Rightarrow> send_result" where
  "fails_at k n = (if n = k then SendFails else Ack)"

definition acks_all :: "nat \<Rightarrow> send_result" where
  "acks_all n = Ack"

definition example_float :: "rat \<Rightarrow> rat" where
  "example_float x = x"

definition example_isoformat :: "datetime \<Rightarrow> string" where
  "example_isoformat t = (if t < 0 then ''-'' else ''+'')"

section \<open>Properties\<close>

subsection \<open>Classification\<close>

lemma fresh_iff: "(\<bar>total_seconds d\<bar> < 60) = (\<bar>d\<bar> < 60000000)"
proof -
  have "\<bar>total_seconds d\<bar> = of_int \<bar>d\<bar> / 1000000"
    by (simp add: total_seconds_def)
  also have "(\<dots> < 60) = ((of_int \<bar>d\<bar> :: rat) < 60000000)"
    by (simp add: divide_less_eq)
  also have "\<dots> = (\<bar>d\<bar> < 60000000)"
    by (metis of_int_less_iff of_int_numeral)
  finally show ?thesis .
qed

lemma determine_fresh:
  "\<bar>o_updated_at r - o_created_at r\<bar> < 60000000 \<Longrightarrow> determine_order_event_type r = ''created''"
  by (simp add: determine_order_event_type_def fresh_iff)

lemma determine_stale:
  "60000000 \<le> \<bar>o_updated_at r - o_created_at r\<bar> \<Longrightarrow>
     determine_order_event_type r = dict_get status_map (o_order_status r) ''updated''"
  by (simp add: determine_order_event_type_def fresh_iff)

lemma dict_get_status_map:
  "dict_get status_map s ''updated'' =
     (if s = ''PENDING'' then ''created''
      else if s = ''CONFIRMED'' then ''confirmed''
      else if s = ''SHIPPED'' then ''shipped''
      else if s = ''DELIVERED'' then ''delivered''
      else if s = ''CANCELLED'' then ''cancelled''
      else ''updated'')"
  by (simp add: dict_get_def status_map_def)

subsection \<open>The loop over a batch\<close>

lemma delivered_Nil: "delivered flt fmt [] w = w"
  by (simp add: delivered_def)

lemma delivered_Cons:
  "delivered flt fmt rs (delivered flt fmt [r] w) = delivered flt fmt (r # rs) w"
  by (simp add: delivered_def)

lemma delivered_wm:
  "wm_orders (last_processed (delivered flt fmt rows w)) =
     (if rows = [] then wm_orders (last_processed w) else Some (o_updated_at (last rows)))"
  by (simp add: delivered_def)

lemma delivered_acked:
  "acked (delivered flt fmt rows w) = acked w @ map (order_message flt fmt) rows"
  by (simp add: delivered_def)

lemma delivered_take_wm:
  "k \<le> length xs \<Longrightarrow>
   wm_orders (last_processed (delivered flt fmt (take k xs) w)) =
     (if k = 0 then wm_orders (last_processed w) else Some (o_updated_at (xs ! (k - 1))))"
  by (cases k) (auto simp: delivered_wm last_conv_nth min_absorb2)

lemma process_orders_Cons_ack:
  assumes "broker 0 = Ack"
  shows "process_orders flt fmt broker (r # rs) w =
     process_orders flt fmt (\<lambda>n. broker (Suc n)) rs (delivered flt fmt [r] w)"
  using assms by (simp add: send_event_def delivered_def order_message_def)

lemma process_orders_Cons_fail:
  assumes "broker 0 \<noteq> Ack"
  shows "process_orders flt fmt broker (r # rs) w = (raised (broker 0), w)"
  using assms by (cases "broker 0") (simp_all add: send_event_def raised_def)

lemma process_orders_acks:
  "\<forall>i<length xs. broker i = Ack \<Longrightarrow>
   process_orders flt fmt broker xs w = (None, delivered flt fmt xs w)"
proof (induction xs arbitrary: broker w)
  case Nil
  show ?case by (simp add: delivered_Nil)
next
  case (Cons r rs)
  have b0: "broker 0 = Ack" using Cons.prems by auto
  have rest: "\<forall>i<length rs. broker (Suc i) = Ack" using Cons.prems by auto
  have "process_orders flt fmt broker (r # rs) w =
          process_orders flt fmt (\<lambda>n. broker (Suc n)) rs (delivered flt fmt [r] w)"
    using b0 by (rule process_orders_Cons_ack)
  also have "\<dots> = (None, delivered flt fmt rs (delivered flt fmt [r] w))"
    using rest by (rule Cons.IH)
  finally show ?case by (simp only: delivered_Cons)
qed

lemma process_orders_fails:
  "k < length xs \<Longrightarrow> \<forall>i<k. broker i = Ack \<Longrightarrow> broker k \<noteq> Ack \<Longrightarrow>
   process_orders flt fmt broker xs w = (raised (broker k), delivered flt fmt (take k xs) w)"
proof (induction xs arbitrary: broker w k)
  case Nil
  then show ?case by simp
next
  case (Cons r rs)
  show ?case
  proof (cases k)
    case 0
    have "broker 0 \<noteq> Ack" using Cons.prems 0 by simp
    then have "process_orders flt fmt broker (r # rs) w = (raised (broker 0), w)"
      by (rule process_orders_Cons_fail)
    then show ?thesis using 0 by (simp only: take_0 delivered_Nil)
  next
    case (Suc j)
    have b0: "broker 0 = Ack" using Cons.prems Suc by auto
    have j: "j < length rs" using Cons.prems Suc by simp
    have acks: "\<forall>i<j. broker (Suc i) = Ack" using Cons.prems Suc by auto
    have bad: "broker (Suc j) \<noteq> Ack" using Cons.prems Suc by simp
    have "process_orders flt fmt broker (r # rs) w =
            process_orders flt fmt (\<lambda>n. broker (Suc n)) rs (delivered flt fmt [r] w)"
      using b0 by (rule process_orders_Cons_ack)
    also have "\<dots> =
        (raised (broker (Suc j)), delivered flt fmt (take j rs) (delivered flt fmt [r] w))"
      using j acks bad by (rule Cons.IH)
    finally show ?thesis using Suc by (simp only: delivered_Cons take_Suc_Cons)
  qed
qed

text \<open>
  Whatever the broker does, the loop delivers a prefix of the batch: all of it, or the rows
  before the first publish that is not acknowledged.
\<close>

lemma process_orders_prefix:
  "\<exists>k\<le>length xs. process_orders flt fmt broker xs w =
      ((if k = length xs then None else raised (broker k)), delivered flt fmt (take k xs) w)
      \<and> (\<forall>i<k. broker i = Ack) \<and> (k < length xs \<longrightarrow> broker k \<noteq> Ack)"
proof (cases "\<forall>i<length xs. broker i = Ack")
  case True
  then show ?thesis using process_orders_acks [of xs broker flt fmt w] by auto
next
  case False
  define k where "k = (LEAST i. broker i \<noteq> Ack)"
  from False obtain i where i: "i < length xs" "broker i \<noteq> Ack" by auto
  have bad: "broker k \<noteq> Ack" unfolding k_def using i(2) by (rule LeastI)
  have le: "k \<le> i" unfolding k_def using i(2) by (rule Least_le)
  have acks: "\<forall>j<k. broker j = Ack" unfolding k_def using not_less_Least by blast
  have klt: "k < length xs" using le i(1) by simp
  show ?thesis
    using process_orders_fails [OF klt acks bad, of flt fmt w] klt acks bad
    by (intro exI [of _ k]) simp
qed

subsection \<open>Claims about the classification\<close>

text \<open>
  Claim C2. An order row whose modification and creation times are less than 60 seconds apart
  is classified \<^verbatim>\<open>created\<close>, whatever its status. The times are counted in microseconds, so
  60 seconds are \<open>60 * 1000000\<close>.
\<close>

theorem fresh_order_is_created:
  "\<bar>o_updated_at order - o_created_at order\<bar> < 60 * 1000000 \<Longrightarrow>
   determine_order_event_type order = ''created''"
  by (simp add: determine_fresh)

text \<open>The scenario of the specification: created at \<open>T\<close>, modified ten seconds later, status
  \<^verbatim>\<open>CONFIRMED\<close>.\<close>

theorem fresh_order_is_created_witness:
  "\<bar>o_updated_at (order_at 1 (sec 0) (sec 10) ''CONFIRMED'')
      - o_created_at (order_at 1 (sec 0) (sec 10) ''CONFIRMED'')\<bar> < 60 * 1000000
   \<and> determine_order_event_type (order_at 1 (sec 0) (sec 10) ''CONFIRMED'') = ''created''"
  using fresh_order_is_created [of "order_at 1 (sec 0) (sec 10) ''CONFIRMED''"]
  by (simp add: order_at_def sec_def)

text \<open>
  Claim C3. An order row whose modification and creation times are at least 60 seconds apart
  gets the event type that the status table gives for its status, and \<^verbatim>\<open>updated\<close> when the
  table has no entry for it. A row with such a status raises nothing: with a broker that
  acknowledges, the loop over a batch that holds the row ends without an exception and has
  delivered every row of the batch, this one with event type \<^verbatim>\<open>updated\<close>.
\<close>

theorem stale_order_follows_status_map:
  assumes "60 * 1000000 \<le> \<bar>o_updated_at order - o_created_at order\<bar>"
  shows "(o_order_status order = ''PENDING'' \<longrightarrow> determine_order_event_type order = ''created'')
    \<and> (o_order_status order = ''CONFIRMED'' \<longrightarrow> determine_order_event_type order = ''confirmed'')
    \<and> (o_order_status order = ''SHIPPED'' \<longrightarrow> determine_order_event_type order = ''shipped'')
    \<and> (o_order_status order = ''DELIVERED'' \<longrightarrow> determine_order_event_type order = ''delivered'')
    \<and> (o_order_status order = ''CANCELLED'' \<longrightarrow> determine_order_event_type order = ''cancelled'')
    \<and> (o_order_status order \<notin> set (map fst status_map) \<longrightarrow>
          determine_order_event_type order = ''updated''
          \<and> ((\<forall>n. broker n = Ack) \<longrightarrow>
               fst (process_orders flt fmt broker (before @ order # after) w) = None
               \<and> acked (snd (process_orders flt fmt broker (before @ order # after) w)) =
                   acked w @ map (order_message flt fmt) (before @ order # after)
               \<and> event_type (snd (order_message flt fmt order)) = ''updated''))"
proof -
  have t: "determine_order_event_type order = dict_get status_map (o_order_status order) ''updated''"
    using assms by (simp add: determine_stale)
  have loop: "process_orders flt fmt broker (before @ order # after) w =
      (None, delivered flt fmt (before @ order # after) w)" if "\<forall>n. broker n = Ack"
    using that by (intro process_orders_acks) simp
  have unmapped: "determine_order_event_type order = ''updated''"
    if "o_order_status order \<notin> set (map fst status_map)"
    using that unfolding t dict_get_status_map by (simp add: status_map_def)
  show ?thesis
    using unmapped loop
    by (simp add: t dict_get_status_map delivered_acked order_message_def make_order_event_def)
qed

text \<open>The scenarios of the specification: modified an hour after creation, with status
  \<^verbatim>\<open>SHIPPED\<close> and with the unmapped status \<^verbatim>\<open>UNKNOWN\<close>.\<close>

theorem stale_order_follows_status_map_witness:
  "determine_order_event_type (order_at 1 (sec 0) (sec 3600) ''SHIPPED'') = ''shipped''
   \<and> determine_order_event_type (order_at 2 (sec 0) (sec 3600) ''UNKNOWN'') = ''updated''
   \<and> fst (process_orders example_float example_isoformat acks_all
             ([] @ order_at 2 (sec 0) (sec 3600) ''UNKNOWN'' # []) fresh_world) = None"
  using stale_order_follows_status_map [of "order_at 1 (sec 0) (sec 3600) ''SHIPPED''"]
    stale_order_follows_status_map [of "order_at 2 (sec 0) (sec 3600) ''UNKNOWN''" acks_all
      example_float example_isoformat "[]" "[]" fresh_world]
  by (simp add: order_at_def sec_def status_map_def acks_all_def send_event_def)

subsection \<open>The query and the cycle\<close>

lemma orders_query_simps:
  "q_where (orders_query wm) = wm" "q_order_by (orders_query wm) = UpdatedAtAsc"
  "q_limit (orders_query wm) = 100"
  by (simp_all add: orders_query_def split: option.split)

lemma fetchall_orders_query:
  "fetchall (orders_query wm) tbl =
     take 100 (sort_key o_updated_at
       (case wm of None \<Rightarrow> tbl | Some t \<Rightarrow> filter (\<lambda>r. t < o_updated_at r) tbl))"
  by (simp add: fetchall_def ordered_def selected_def orders_query_simps)

lemma fetchall_sorted: "sorted (map o_updated_at (fetchall (orders_query wm) tbl))"
  by (simp add: fetchall_orders_query take_map [symmetric] sorted_wrt_take del: take_map)

lemma fetchall_length: "length (fetchall (orders_query wm) tbl) \<le> 100"
  by (simp add: fetchall_orders_query)

lemma fetchall_member:
  assumes "r \<in> set (fetchall (orders_query wm) tbl)"
  shows "r \<in> set tbl \<and> wm < Some (o_updated_at r)"
proof -
  have "r \<in> set (case wm of None \<Rightarrow> tbl | Some t \<Rightarrow> filter (\<lambda>r. t < o_updated_at r) tbl)"
    using assms in_set_takeD by (fastforce simp: fetchall_orders_query)
  then show ?thesis by (cases wm) auto
qed

lemma determine_range:
  "determine_order_event_type order \<in>
     {''created'', ''confirmed'', ''shipped'', ''delivered'', ''cancelled'', ''updated''}"
proof (cases "\<bar>o_updated_at order - o_created_at order\<bar> < 60000000")
  case True
  then show ?thesis by (simp add: determine_fresh)
next
  case False
  then have "determine_order_event_type order =
      dict_get status_map (o_order_status order) ''updated''"
    by (simp add: determine_stale)
  then show ?thesis by (simp add: dict_get_status_map)
qed

lemma monitor_orders_cycle_Table:
  "monitor_orders_cycle flt fmt (Table tbl) broker w =
     process_orders flt fmt broker (fetchall (orders_query (wm_orders (last_processed w))) tbl) w"
  by (simp add: monitor_orders_cycle_def)

lemma monitor_orders_cycle_acked:
  "\<exists>rows. acked (snd (monitor_orders_cycle flt fmt db broker w)) =
            acked w @ map (order_message flt fmt) rows
          \<and> (\<forall>r\<in>set rows. \<exists>tbl. db = Table tbl \<and> r \<in> set tbl)"
proof (cases db)
  case (Table tbl)
  define batch where "batch = fetchall (orders_query (wm_orders (last_processed w))) tbl"
  obtain k where
    "process_orders flt fmt broker batch w =
      ((if k = length batch then None else raised (broker k)),
       delivered flt fmt (take k batch) w)"
    using process_orders_prefix by blast
  then have "acked (snd (monitor_orders_cycle flt fmt db broker w)) =
      acked w @ map (order_message flt fmt) (take k batch)"
    unfolding Table monitor_orders_cycle_Table batch_def by (simp add: delivered_acked)
  moreover have "\<forall>r\<in>set (take k batch). \<exists>tbl. db = Table tbl \<and> r \<in> set tbl"
    using Table fetchall_member [of _ "wm_orders (last_processed w)" tbl]
    unfolding batch_def by (blast dest: in_set_takeD)
  ultimately show ?thesis by blast
next
  case ConnectFails
  then show ?thesis by (simp add: monitor_orders_cycle_def)
next
  case ExecuteFails
  then show ?thesis by (simp add: monitor_orders_cycle_def)
qed

text \<open>
  Claim C7. The event type of every order row is one of \<^verbatim>\<open>created\<close>, \<^verbatim>\<open>confirmed\<close>,
  \<^verbatim>\<open>shipped\<close>, \<^verbatim>\<open>delivered\<close>, \<^verbatim>\<open>cancelled\<close> and \<^verbatim>\<open>updated\<close>, and so is the
  \<^verbatim>\<open>event_type\<close> of every message that a polling cycle adds to the acknowledged ones,
  whatever the source and the broker do.
\<close>

theorem order_event_type_known:
  "determine_order_event_type order \<in>
     {''created'', ''confirmed'', ''shipped'', ''delivered'', ''cancelled'', ''updated''}
   \<and> (\<forall>m \<in> set (acked (snd (monitor_orders_cycle flt fmt db broker w))).
         m \<in> set (acked w) \<or>
         event_type (snd m) \<in>
           {''created'', ''confirmed'', ''shipped'', ''delivered'', ''cancelled'', ''updated''})"
proof -
  define S where
    "S = {''created'', ''confirmed'', ''shipped'', ''delivered'', ''cancelled'', ''updated''}"
  obtain rows where rows: "acked (snd (monitor_orders_cycle flt fmt db broker w)) =
      acked w @ map (order_message flt fmt) rows"
    using monitor_orders_cycle_acked [of flt fmt db broker w] by blast
  have ev: "event_type (snd (order_message flt fmt r)) \<in> S" for r
    using determine_range [of r] by (simp add: order_message_def make_order_event_def S_def)
  have "determine_order_event_type order \<in> S"
    using determine_range [of order] by (simp add: S_def)
  moreover have "\<forall>m \<in> set (acked (snd (monitor_orders_cycle flt fmt db broker w))).
         m \<in> set (acked w) \<or> event_type (snd m) \<in> S"
    unfolding rows using ev by auto
  ultimately show ?thesis unfolding S_def by blast
qed


text \<open>A cycle over a fresh row and a row with the status \<^verbatim>\<open>COMPLETED\<close> of the seed data.\<close>

theorem order_event_type_known_witness:
  "determine_order_event_type (order_at 1 (sec 0) (sec 10) ''CONFIRMED'')
     \<in> {''created'', ''confirmed'', ''shipped'', ''delivered'', ''cancelled'', ''updated''}
   \<and> map (event_type \<circ> snd)
     (acked (snd (monitor_orders_cycle example_float example_isoformat
           (Table [order_at 1 (sec 0) (sec 10) ''CONFIRMED'',
                   order_at 2 (sec 0) (sec 3600) ''COMPLETED''])
           acks_all fresh_world))) = [''created'', ''updated'']"
proof -
  have ev: "map (event_type \<circ> snd)
     (acked (snd (monitor_orders_cycle example_float example_isoformat
           (Table [order_at 1 (sec 0) (sec 10) ''CONFIRMED'',
                   order_at 2 (sec 0) (sec 3600) ''COMPLETED''])
           acks_all fresh_world))) = [''created'', ''updated'']"
    by (simp add: monitor_orders_cycle_def fetchall_def ordered_def selected_def orders_query_def
        fresh_world_def order_at_def sec_def acks_all_def send_event_def make_order_event_def
        determine_order_event_type_def total_seconds_def dict_get_def status_map_def)
  show ?thesis
    using order_event_type_known [of "order_at 1 (sec 0) (sec 10) ''CONFIRMED''"
        example_float example_isoformat
        "Table [order_at 1 (sec 0) (sec 10) ''CONFIRMED'',
                order_at 2 (sec 0) (sec 3600) ''COMPLETED'']" acks_all fresh_world] ev
    by blast
qed

text \<open>
  Claim C9, as amended. The freshness test compares the absolute value of the difference of
  the two times with 60 seconds, so for a row modified before it was created it compares the
  time from modification to creation. A row is classified \<^verbatim>\<open>created\<close> exactly when
  that absolute difference is under 60 seconds or its status is \<^verbatim>\<open>PENDING\<close>; a row modified
  60 seconds or more before its creation gets the event type of the status table
  (\<^verbatim>\<open>updated\<close> without an entry).
\<close>

theorem created_iff_fresh_or_pending:
  "(determine_order_event_type order = ''created'') =
     (\<bar>o_updated_at order - o_created_at order\<bar> < 60 * 1000000 \<or> o_order_status order = ''PENDING'')
   \<and> (o_updated_at order < o_created_at order \<longrightarrow>
        (\<bar>total_seconds (o_updated_at order - o_created_at order)\<bar> < 60)
          = (o_created_at order - o_updated_at order < 60 * 1000000))
   \<and> (60 * 1000000 \<le> o_created_at order - o_updated_at order \<longrightarrow>
        determine_order_event_type order = dict_get status_map (o_order_status order) ''updated'')"
proof -
  have 1: "(determine_order_event_type order = ''created'') =
     (\<bar>o_updated_at order - o_created_at order\<bar> < 60 * 1000000 \<or> o_order_status order = ''PENDING'')"
  proof (cases "\<bar>o_updated_at order - o_created_at order\<bar> < 60000000")
    case True
    then show ?thesis by (simp add: determine_fresh)
  next
    case False
    then have "determine_order_event_type order =
        dict_get status_map (o_order_status order) ''updated''"
      by (simp add: determine_stale)
    then show ?thesis using False by (simp add: dict_get_status_map)
  qed
  have 2: "o_updated_at order < o_created_at order \<longrightarrow>
        (\<bar>total_seconds (o_updated_at order - o_created_at order)\<bar> < 60)
          = (o_created_at order - o_updated_at order < 60 * 1000000)"
    by (simp add: fresh_iff)
  have 3: "60 * 1000000 \<le> o_created_at order - o_updated_at order \<longrightarrow>
        determine_order_event_type order = dict_get status_map (o_order_status order) ''updated''"
    by (simp add: determine_stale)
  show ?thesis using 1 2 3 by blast
qed

text \<open>Rows modified an hour and thirty seconds before their creation, status \<^verbatim>\<open>SHIPPED\<close>.\<close>

theorem created_iff_fresh_or_pending_witness:
  "o_updated_at (order_at 1 (sec 3600) (sec 0) ''SHIPPED'')
     < o_created_at (order_at 1 (sec 3600) (sec 0) ''SHIPPED'')
   \<and> determine_order_event_type (order_at 1 (sec 3600) (sec 0) ''SHIPPED'') = ''shipped''
   \<and> determine_order_event_type (order_at 2 (sec 30) (sec 0) ''SHIPPED'') = ''created''"
  using created_iff_fresh_or_pending [of "order_at 1 (sec 3600) (sec 0) ''SHIPPED''"]
    created_iff_fresh_or_pending [of "order_at 2 (sec 30) (sec 0) ''SHIPPED''"]
  by (simp add: order_at_def sec_def dict_get_def status_map_def)

text \<open>
  Claim C9 as stated fails: a row modified an hour before its creation with status
  \<^verbatim>\<open>PENDING\<close> is classified \<^verbatim>\<open>created\<close>, by the status table, although the absolute
  difference is not under 60 seconds.
\<close>

theorem skewed_pending_counterexample:
  "o_updated_at (order_at 1 (sec 3600) (sec 0) ''PENDING'')
     < o_created_at (order_at 1 (sec 3600) (sec 0) ''PENDING'')
   \<and> determine_order_event_type (order_at 1 (sec 3600) (sec 0) ''PENDING'') = ''created''
   \<and> \<not> \<bar>o_updated_at (order_at 1 (sec 3600) (sec 0) ''PENDING'')
           - o_created_at (order_at 1 (sec 3600) (sec 0) ''PENDING'')\<bar> < 60 * 1000000"
  by (simp add: order_at_def sec_def determine_order_event_type_def total_seconds_def
      dict_get_def status_map_def)

text \<open>
  Claim C10. The event built for a row carries the row's status string as
  \<^verbatim>\<open>order_status\<close> and the formatted modification time of the row as \<^verbatim>\<open>timestamp\<close>,
  whatever its event type; every message that a cycle adds is such an event of a row of the
  table. A row with status \<^verbatim>\<open>CANCELLED\<close> modified ten seconds after its creation gives
  event type \<^verbatim>\<open>created\<close> with order status \<^verbatim>\<open>CANCELLED\<close>.
\<close>

theorem order_event_keeps_status_and_time:
  "order_status (snd (order_message flt fmt order)) = o_order_status order
   \<and> timestamp (snd (order_message flt fmt order)) = fmt (o_updated_at order)
   \<and> event_type (snd (order_message flt fmt order)) = determine_order_event_type order
   \<and> (\<forall>m \<in> set (acked (snd (monitor_orders_cycle flt fmt (Table tbl) broker w))).
         m \<in> set (acked w) \<or>
         (\<exists>r \<in> set tbl. m = order_message flt fmt r
            \<and> order_status (snd m) = o_order_status r
            \<and> timestamp (snd m) = fmt (o_updated_at r)))
   \<and> event_type (snd (order_message flt fmt (order_at 1 (sec 0) (sec 10) ''CANCELLED''))) = ''created''
   \<and> order_status (snd (order_message flt fmt (order_at 1 (sec 0) (sec 10) ''CANCELLED''))) = ''CANCELLED''"
proof -
  have fields: "order_status (snd (order_message flt fmt r)) = o_order_status r
      \<and> timestamp (snd (order_message flt fmt r)) = fmt (o_updated_at r)
      \<and> event_type (snd (order_message flt fmt r)) = determine_order_event_type r" for r
    by (simp add: order_message_def make_order_event_def)
  obtain rows where rows: "acked (snd (monitor_orders_cycle flt fmt (Table tbl) broker w)) =
      acked w @ map (order_message flt fmt) rows"
    and sub: "\<forall>r\<in>set rows. \<exists>tbl'. Table tbl = Table tbl' \<and> r \<in> set tbl'"
    using monitor_orders_cycle_acked [of flt fmt "Table tbl" broker w] by blast
  have emitted: "\<forall>m \<in> set (acked (snd (monitor_orders_cycle flt fmt (Table tbl) broker w))).
         m \<in> set (acked w) \<or>
         (\<exists>r \<in> set tbl. m = order_message flt fmt r
            \<and> order_status (snd m) = o_order_status r
            \<and> timestamp (snd m) = fmt (o_updated_at r))"
    unfolding rows using sub fields by auto
  have ex: "determine_order_event_type (order_at 1 (sec 0) (sec 10) ''CANCELLED'') = ''created''"
    by (rule determine_fresh) (simp add: order_at_def sec_def)
  have st: "o_order_status (order_at 1 (sec 0) (sec 10) ''CANCELLED'') = ''CANCELLED''"
    by (simp add: order_at_def)
  show ?thesis using fields emitted ex st by simp
qed

text \<open>A cycle over a table with that one row.\<close>

theorem order_event_keeps_status_and_time_witness:
  "order_status (snd (order_message example_float example_isoformat
       (order_at 1 (sec 0) (sec 10) ''CANCELLED''))) = ''CANCELLED''
   \<and> timestamp (snd (order_message example_float example_isoformat
       (order_at 1 (sec 0) (sec 10) ''CANCELLED''))) = example_isoformat (sec 10)
   \<and> map (\<lambda>m. (event_type (snd m), order_status (snd m), timestamp (snd m)))
     (acked (snd (monitor_orders_cycle example_float example_isoformat
        (Table [order_at 1 (sec 0) (sec 10) ''CANCELLED'']) acks_all fresh_world))) =
     [(''created'', ''CANCELLED'', example_isoformat (sec 10))]"
proof -
  have upd: "o_updated_at (order_at 1 (sec 0) (sec 10) ''CANCELLED'') = sec 10
      \<and> o_order_status (order_at 1 (sec 0) (sec 10) ''CANCELLED'') = ''CANCELLED''"
    by (simp add: order_at_def)
  have ev: "map (\<lambda>m. (event_type (snd m), order_status (snd m), timestamp (snd m)))
     (acked (snd (monitor_orders_cycle example_float example_isoformat
        (Table [order_at 1 (sec 0) (sec 10) ''CANCELLED'']) acks_all fresh_world))) =
     [(''created'', ''CANCELLED'', example_isoformat (sec 10))]"
    by (simp add: monitor_orders_cycle_def fetchall_def ordered_def selected_def orders_query_def
        fresh_world_def order_at_def sec_def acks_all_def send_event_def make_order_event_def
        determine_order_event_type_def total_seconds_def)
  show ?thesis
    using order_event_keeps_status_and_time [of example_float example_isoformat
        "order_at 1 (sec 0) (sec 10) ''CANCELLED''"
        "[order_at 1 (sec 0) (sec 10) ''CANCELLED'']" acks_all fresh_world] ev upd
    by simp
qed

subsection \<open>The watermark along the loop\<close>

lemma watermark_after_cases:
  assumes "i \<le> length batch"
  shows "\<exists>k\<le>i. watermark_after flt fmt broker batch w i =
            (if k = 0 then wm_orders (last_processed w) else Some (o_updated_at (batch ! (k - 1))))
          \<and> (\<forall>j<k. broker j = Ack) \<and> (k < i \<longrightarrow> broker k \<noteq> Ack)"
proof -
  have len: "length (take i batch) = i" using assms by simp
  obtain k where k: "k \<le> length (take i batch)"
    and eq: "process_orders flt fmt broker (take i batch) w =
      ((if k = length (take i batch) then None else raised (broker k)),
       delivered flt fmt (take k (take i batch)) w)"
    and acks: "\<forall>j<k. broker j = Ack" and bad: "k < length (take i batch) \<longrightarrow> broker k \<noteq> Ack"
    using process_orders_prefix [of "take i batch" flt fmt broker w] by blast
  have ki: "k \<le> i" using k len by simp
  have tk: "take k (take i batch) = take k batch" using ki by (simp add: min_absorb1)
  have "watermark_after flt fmt broker batch w i =
          wm_orders (last_processed (delivered flt fmt (take k batch) w))"
    unfolding watermark_after_def eq tk by simp
  also have "\<dots> = (if k = 0 then wm_orders (last_processed w)
                    else Some (o_updated_at (batch ! (k - 1))))"
    using ki assms by (intro delivered_take_wm) simp
  finally show ?thesis using ki acks bad len by auto
qed

lemma watermark_after_mono_step:
  assumes srt: "sorted (map o_updated_at batch)"
    and i: "i < length batch"
    and lo: "\<forall>r\<in>set batch. wm_orders (last_processed w) \<le> Some (o_updated_at r)"
  shows "watermark_after flt fmt broker batch w i \<le> watermark_after flt fmt broker batch w (Suc i)"
proof -
  obtain k where k: "k \<le> i"
    and eq: "watermark_after flt fmt broker batch w i =
      (if k = 0 then wm_orders (last_processed w) else Some (o_updated_at (batch ! (k - 1))))"
    and acks: "\<forall>j<k. broker j = Ack" and bad: "k < i \<longrightarrow> broker k \<noteq> Ack"
    using watermark_after_cases [of i batch flt fmt broker w] i by auto
  obtain k' where k': "k' \<le> Suc i"
    and eq': "watermark_after flt fmt broker batch w (Suc i) =
      (if k' = 0 then wm_orders (last_processed w) else Some (o_updated_at (batch ! (k' - 1))))"
    and acks': "\<forall>j<k'. broker j = Ack" and bad': "k' < Suc i \<longrightarrow> broker k' \<noteq> Ack"
    using watermark_after_cases [of "Suc i" batch flt fmt broker w] i by auto
  have kk': "k \<le> k'"
  proof (rule ccontr)
    assume "\<not> k \<le> k'"
    then have "k' < k" by simp
    then show False using acks bad' k by auto
  qed
  show ?thesis
  proof (cases "k' = 0")
    case True
    then show ?thesis using kk' eq eq' by simp
  next
    case False
    have k'len: "k' - 1 < length batch" using k' i False by simp
    show ?thesis
    proof (cases "k = 0")
      case True
      have "batch ! (k' - 1) \<in> set batch" using k'len by simp
      then show ?thesis using True False eq eq' lo by simp
    next
      case kpos: False
      have "o_updated_at (batch ! (k - 1)) \<le> o_updated_at (batch ! (k' - 1))"
        using srt k'len kk' kpos sorted_nth_mono [of "map o_updated_at batch" "k - 1" "k' - 1"]
        by simp
      then show ?thesis using kpos False eq eq' by simp
    qed
  qed
qed

lemma sorted_map_upt:
  assumes "\<And>i. i < n \<Longrightarrow> f i \<le> f (Suc i)"
  shows "sorted (map f [0..<Suc n])"
proof -
  have mono: "i \<le> j \<Longrightarrow> j \<le> n \<Longrightarrow> f i \<le> f j" for i j
  proof (induction j)
    case 0
    then show ?case by simp
  next
    case (Suc j)
    show ?case
    proof (cases "i = Suc j")
      case True
      then show ?thesis by simp
    next
      case False
      then have "f i \<le> f j" using Suc by simp
      also have "f j \<le> f (Suc j)" using assms Suc.prems by simp
      finally show ?thesis .
    qed
  qed
  show ?thesis
    by (simp only: sorted_iff_nth_mono length_map length_upt) (auto simp: nth_append mono simp del: upt_Suc)
qed

lemma watermark_trace_sorted:
  assumes "sorted (map o_updated_at batch)"
    and "\<forall>r\<in>set batch. wm_orders (last_processed w) \<le> Some (o_updated_at r)"
  shows "sorted (watermark_trace flt fmt broker batch w)"
  unfolding watermark_trace_def
  by (rule sorted_map_upt) (rule watermark_after_mono_step [OF assms(1) _ assms(2)])


lemma cycle_fails_at:
  assumes "batch = fetchall (orders_query (wm_orders (last_processed w))) tbl"
    and "k < length batch" and "\<forall>i<k. broker i = Ack" and "broker k \<noteq> Ack"
  shows "monitor_orders_cycle flt fmt (Table tbl) broker w =
           (raised (broker k), delivered flt fmt (take k batch) w)"
  unfolding monitor_orders_cycle_Table assms(1) [symmetric]
  using assms(2-4) by (rule process_orders_fails)

lemma raised_not_Ack: "outcome \<noteq> Ack \<Longrightarrow> raised outcome \<noteq> None"
  by (cases outcome) (simp_all add: raised_def)

subsection \<open>Claims about the poll\<close>

text \<open>
  Claim C4. The batch that a poll of the orders table fetches consists of rows of the table
  whose modification time is strictly later than the watermark (of all rows when the watermark
  is unset, \<open>None\<close> being below every time), in ascending order of modification time, and
  has at most 100 rows: it is the first 100 of the rows that pass the filter, in that order.
  The cycle processes exactly this batch.
\<close>

theorem poll_selects_after_watermark:
  "fetchall (orders_query wm) tbl =
       take 100 (sort_key o_updated_at
         (case wm of None \<Rightarrow> tbl | Some t \<Rightarrow> filter (\<lambda>r. t < o_updated_at r) tbl))
   \<and> (\<forall>r \<in> set (fetchall (orders_query wm) tbl). r \<in> set tbl \<and> wm < Some (o_updated_at r))
   \<and> sorted (map o_updated_at (fetchall (orders_query wm) tbl))
   \<and> length (fetchall (orders_query wm) tbl) \<le> 100
   \<and> monitor_orders_cycle flt fmt (Table tbl) broker w =
       process_orders flt fmt broker
         (fetchall (orders_query (wm_orders (last_processed w))) tbl) w"
  using fetchall_member [of _ wm tbl]
  by (simp add: fetchall_sorted fetchall_length monitor_orders_cycle_Table
      fetchall_orders_query [symmetric])

text \<open>A table of three rows, polled with a watermark between the first two and with none.\<close>

theorem poll_selects_after_watermark_witness:
  "fetchall (orders_query (Some (sec 150)))
      [order_at 3 (sec 0) (sec 300) ''SHIPPED'', order_at 1 (sec 0) (sec 100) ''PENDING'',
       order_at 2 (sec 0) (sec 200) ''CONFIRMED''] =
      [order_at 2 (sec 0) (sec 200) ''CONFIRMED'', order_at 3 (sec 0) (sec 300) ''SHIPPED'']
   \<and> fetchall (orders_query None)
      [order_at 3 (sec 0) (sec 300) ''SHIPPED'', order_at 1 (sec 0) (sec 100) ''PENDING'',
       order_at 2 (sec 0) (sec 200) ''CONFIRMED''] =
      [order_at 1 (sec 0) (sec 100) ''PENDING'', order_at 2 (sec 0) (sec 200) ''CONFIRMED'',
       order_at 3 (sec 0) (sec 300) ''SHIPPED'']"
  using poll_selects_after_watermark [of "Some (sec 150)"
      "[order_at 3 (sec 0) (sec 300) ''SHIPPED'', order_at 1 (sec 0) (sec 100) ''PENDING'',
        order_at 2 (sec 0) (sec 200) ''CONFIRMED'']"
      example_float example_isoformat acks_all fresh_world]
    poll_selects_after_watermark [of None
      "[order_at 3 (sec 0) (sec 300) ''SHIPPED'', order_at 1 (sec 0) (sec 100) ''PENDING'',
        order_at 2 (sec 0) (sec 200) ''CONFIRMED'']"
      example_float example_isoformat acks_all fresh_world]
  by (simp add: order_at_def sec_def)

text \<open>
  Claim C8. A new producer has all three watermarks unset, whatever world it is started in, so
  also after a restart: nothing of an earlier producer's watermark is kept. Its first query has
  no \<^verbatim>\<open>WHERE\<close> clause, every row of the table passes the selection, and the first batch
  starts at the beginning of the table in ascending order of modification time (cut at the limit
  of the query).
\<close>

theorem new_producer_scans_from_the_beginning:
  "last_processed (event_producer_init w) =
       \<lparr>wm_orders = None, wm_products = None, wm_customers = None\<rparr>
   \<and> q_where (orders_query (wm_orders (last_processed (event_producer_init w)))) = None
   \<and> selected (orders_query (wm_orders (last_processed (event_producer_init w)))) tbl = tbl
   \<and> fetchall (orders_query (wm_orders (last_processed (event_producer_init w)))) tbl =
       take 100 (sort_key o_updated_at tbl)
   \<and> monitor_orders_cycle flt fmt (Table tbl) broker (event_producer_init w) =
       process_orders flt fmt broker (take 100 (sort_key o_updated_at tbl))
         (event_producer_init w)"
  by (simp add: event_producer_init_def monitor_orders_cycle_Table fetchall_orders_query
      selected_def orders_query_simps)

subsection \<open>Claims about the watermark\<close>




lemma selected_member:
  "(r \<in> set (selected (orders_query wm) tbl)) = (r \<in> set tbl \<and> wm < Some (o_updated_at r))"
  by (cases wm) (simp_all add: selected_def orders_query_simps)

text \<open>
  What holds of every cycle that fails. A cycle whose connection or query fails leaves the
  world as it is. A cycle in which the publish of row \<open>k\<close> fails or times out ends with
  that exception, no row from \<open>k\<close> on is delivered, and the watermark is the value from
  before the cycle or the modification time of row \<open>k - 1\<close>, which is no later than the
  modification time of any row from \<open>k\<close> on.
\<close>

lemma failed_cycle_watermark_bound:
  assumes batch: "batch = fetchall (orders_query (wm_orders (last_processed w))) tbl"
    and k: "k < length batch"
    and acks: "\<forall>i<k. broker i = Ack"
    and fail: "broker k \<noteq> Ack"
    and w': "w' = snd (monitor_orders_cycle flt fmt (Table tbl) broker w)"
  shows "monitor_orders_cycle flt fmt ConnectFails broker w = (Some DatabaseError, w)
    \<and> monitor_orders_cycle flt fmt ExecuteFails broker w = (Some DatabaseError, w)
    \<and> fst (monitor_orders_cycle flt fmt (Table tbl) broker w) = raised (broker k)
    \<and> raised (broker k) \<noteq> None
    \<and> acked w' = acked w @ map (order_message flt fmt) (take k batch)
    \<and> wm_orders (last_processed w') =
        (if k = 0 then wm_orders (last_processed w) else Some (o_updated_at (batch ! (k - 1))))
    \<and> (\<forall>j. k \<le> j \<and> j < length batch \<longrightarrow>
          wm_orders (last_processed w') \<le> Some (o_updated_at (batch ! j)))
    \<and> (\<forall>j. k \<le> j \<and> j < length batch
            \<and> (k = 0 \<or> o_updated_at (batch ! (k - 1)) < o_updated_at (batch ! j)) \<longrightarrow>
          wm_orders (last_processed w') < Some (o_updated_at (batch ! j))
          \<and> batch ! j \<in> set (selected (orders_query (wm_orders (last_processed w'))) tbl))"
proof -
  have cyc: "monitor_orders_cycle flt fmt (Table tbl) broker w =
      (raised (broker k), delivered flt fmt (take k batch) w)"
    using batch k acks fail by (rule cycle_fails_at)
  have wm: "wm_orders (last_processed w') =
      (if k = 0 then wm_orders (last_processed w) else Some (o_updated_at (batch ! (k - 1))))"
    unfolding w' cyc using k by (simp add: delivered_take_wm)
  have srt: "sorted (map o_updated_at batch)"
    unfolding batch by (rule fetchall_sorted)
  have mem: "batch ! j \<in> set tbl \<and> wm_orders (last_processed w) < Some (o_updated_at (batch ! j))"
    if "j < length batch" for j
  proof -
    have "batch ! j \<in> set batch" using that by simp
    then show ?thesis
      using fetchall_member [of "batch ! j" "wm_orders (last_processed w)" tbl] batch by simp
  qed
  have le: "wm_orders (last_processed w') \<le> Some (o_updated_at (batch ! j))"
    if "k \<le> j" "j < length batch" for j
  proof (cases "k = 0")
    case True
    then show ?thesis using wm mem [OF that(2)] by (simp add: less_imp_le)
  next
    case False
    have "o_updated_at (batch ! (k - 1)) \<le> o_updated_at (batch ! j)"
      using srt that False sorted_nth_mono [of "map o_updated_at batch" "k - 1" j] by simp
    then show ?thesis using wm False by simp
  qed
  have lt: "wm_orders (last_processed w') < Some (o_updated_at (batch ! j))
      \<and> batch ! j \<in> set (selected (orders_query (wm_orders (last_processed w'))) tbl)"
    if "k \<le> j" "j < length batch"
       "k = 0 \<or> o_updated_at (batch ! (k - 1)) < o_updated_at (batch ! j)" for j
  proof -
    have "wm_orders (last_processed w') < Some (o_updated_at (batch ! j))"
      using that(3) wm mem [OF that(2)] by (cases "k = 0") simp_all
    then show ?thesis using mem [OF that(2)] by (simp add: selected_member)
  qed
  have db: "monitor_orders_cycle flt fmt ConnectFails broker w = (Some DatabaseError, w)
    \<and> monitor_orders_cycle flt fmt ExecuteFails broker w = (Some DatabaseError, w)"
    by (simp add: monitor_orders_cycle_def)
  have ack: "acked w' = acked w @ map (order_message flt fmt) (take k batch)"
    unfolding w' cyc by (simp add: delivered_acked)
  have r: "raised (broker k) \<noteq> None" using fail by (rule raised_not_Ack)
  have f: "fst (monitor_orders_cycle flt fmt (Table tbl) broker w) = raised (broker k)"
    by (simp add: cyc)
  show ?thesis using db f r ack wm le lt by blast
qed

text \<open>
  Claim C5. The watermark is never advanced past an undelivered event, so that the next cycle
  polls the record again. The code breaks this for two rows with the same modification time:
  the first is delivered and the watermark set to its modification time, the publish of the
  second fails and the cycle ends with that exception, with the watermark equal to the
  modification time of the second row, whose event is not among the acknowledged ones. The
  query of the next cycle on the same table then fetches nothing, and that cycle ends without
  an exception and leaves the world as it is, whatever the broker would answer: the second row
  is not published again.
\<close>

theorem tied_timestamp_loses_event:
  "fst (monitor_orders_cycle example_float example_isoformat
      (Table [order_at 1 (sec 0) (sec 100) ''SHIPPED'', order_at 2 (sec 0) (sec 100) ''SHIPPED''])
      (fails_at 1) fresh_world) = Some KafkaError
   \<and> acked (snd (monitor_orders_cycle example_float example_isoformat
      (Table [order_at 1 (sec 0) (sec 100) ''SHIPPED'', order_at 2 (sec 0) (sec 100) ''SHIPPED''])
      (fails_at 1) fresh_world)) =
      [order_message example_float example_isoformat (order_at 1 (sec 0) (sec 100) ''SHIPPED'')]
   \<and> wm_orders (last_processed (snd (monitor_orders_cycle example_float example_isoformat
      (Table [order_at 1 (sec 0) (sec 100) ''SHIPPED'', order_at 2 (sec 0) (sec 100) ''SHIPPED''])
      (fails_at 1) fresh_world))) = Some (o_updated_at (order_at 2 (sec 0) (sec 100) ''SHIPPED''))
   \<and> fetchall (orders_query (wm_orders (last_processed
        (snd (monitor_orders_cycle example_float example_isoformat
          (Table [order_at 1 (sec 0) (sec 100) ''SHIPPED'',
                  order_at 2 (sec 0) (sec 100) ''SHIPPED''])
          (fails_at 1) fresh_world)))))
      [order_at 1 (sec 0) (sec 100) ''SHIPPED'', order_at 2 (sec 0) (sec 100) ''SHIPPED''] = []
   \<and> monitor_orders_cycle example_float example_isoformat
      (Table [order_at 1 (sec 0) (sec 100) ''SHIPPED'', order_at 2 (sec 0) (sec 100) ''SHIPPED''])
      broker
      (snd (monitor_orders_cycle example_float example_isoformat
        (Table [order_at 1 (sec 0) (sec 100) ''SHIPPED'',
                order_at 2 (sec 0) (sec 100) ''SHIPPED''])
        (fails_at 1) fresh_world)) =
     (None, snd (monitor_orders_cycle example_float example_isoformat
        (Table [order_at 1 (sec 0) (sec 100) ''SHIPPED'',
                order_at 2 (sec 0) (sec 100) ''SHIPPED''])
        (fails_at 1) fresh_world))"
proof -
  define w1 where "w1 = snd (monitor_orders_cycle example_float example_isoformat
      (Table [order_at 1 (sec 0) (sec 100) ''SHIPPED'', order_at 2 (sec 0) (sec 100) ''SHIPPED''])
      (fails_at 1) fresh_world)"
  have first: "monitor_orders_cycle example_float example_isoformat
      (Table [order_at 1 (sec 0) (sec 100) ''SHIPPED'', order_at 2 (sec 0) (sec 100) ''SHIPPED''])
      (fails_at 1) fresh_world =
      (Some KafkaError,
       delivered example_float example_isoformat [order_at 1 (sec 0) (sec 100) ''SHIPPED'']
         fresh_world)"
    by (simp add: monitor_orders_cycle_def fetchall_def ordered_def selected_def orders_query_def
        fresh_world_def order_at_def sec_def fails_at_def send_event_def order_message_def
        delivered_def)
  have wm: "wm_orders (last_processed w1) = Some (sec 100)"
    unfolding w1_def first by (simp add: delivered_wm order_at_def)
  have ack: "acked w1 =
      [order_message example_float example_isoformat (order_at 1 (sec 0) (sec 100) ''SHIPPED'')]"
    unfolding w1_def first by (simp add: delivered_acked fresh_world_def)
  have empty: "fetchall (orders_query (wm_orders (last_processed w1)))
      [order_at 1 (sec 0) (sec 100) ''SHIPPED'', order_at 2 (sec 0) (sec 100) ''SHIPPED''] = []"
    unfolding wm by (simp add: fetchall_orders_query order_at_def)
  have "next": "monitor_orders_cycle example_float example_isoformat
      (Table [order_at 1 (sec 0) (sec 100) ''SHIPPED'', order_at 2 (sec 0) (sec 100) ''SHIPPED''])
      broker w1 = (None, w1)"
    unfolding monitor_orders_cycle_Table empty by simp
  have upd: "o_updated_at (order_at 2 (sec 0) (sec 100) ''SHIPPED'') = sec 100"
    by (simp add: order_at_def)
  have f: "fst (monitor_orders_cycle example_float example_isoformat
      (Table [order_at 1 (sec 0) (sec 100) ''SHIPPED'', order_at 2 (sec 0) (sec 100) ''SHIPPED''])
      (fails_at 1) fresh_world) = Some KafkaError"
    unfolding first by simp
  show ?thesis
    unfolding w1_def [symmetric] upd
    using f ack wm empty "next" by (intro conjI)
qed

lemma watermark_trace_acks:
  assumes "\<forall>i<length batch. broker i = Ack"
  shows "watermark_trace flt fmt broker batch w =
           wm_orders (last_processed w) # map (\<lambda>r. Some (o_updated_at r)) batch"
proof (rule nth_equalityI)
  show "length (watermark_trace flt fmt broker batch w) =
      length (wm_orders (last_processed w) # map (\<lambda>r. Some (o_updated_at r)) batch)"
    by (simp add: watermark_trace_def)
next
  fix i assume "i < length (watermark_trace flt fmt broker batch w)"
  then have i: "i \<le> length batch" by (simp add: watermark_trace_def)
  have "\<forall>j<length (take i batch). broker j = Ack" using assms i by simp
  then have "process_orders flt fmt broker (take i batch) w =
      (None, delivered flt fmt (take i batch) w)"
    by (rule process_orders_acks)
  then have "watermark_after flt fmt broker batch w i =
      (if i = 0 then wm_orders (last_processed w) else Some (o_updated_at (batch ! (i - 1))))"
    using i by (simp add: watermark_after_def delivered_take_wm)
  moreover have "watermark_trace flt fmt broker batch w ! i =
      watermark_after flt fmt broker batch w i"
    using i unfolding watermark_trace_def by (simp add: nth_append del: upt_Suc)
  ultimately show "watermark_trace flt fmt broker batch w ! i =
      (wm_orders (last_processed w) # map (\<lambda>r. Some (o_updated_at r)) batch) ! i"
    using i by (cases i) simp_all
qed

lemma sorted_map_Some:
  "sorted (map o_updated_at batch) \<Longrightarrow> sorted (map (\<lambda>r. Some (o_updated_at r)) batch)"
  by (induction batch) auto

text \<open>
  Claim C6. After a delivered row the watermark is the modification time of that row. For a
  batch in ascending order of modification time whose publishes are all acknowledged, the
  watermarks along the loop are the value at the start followed by the modification times of
  the rows, a non-decreasing sequence; with any broker, and a start value that is no later
  than the rows of the batch, the whole sequence of watermarks is non-decreasing.
\<close>

theorem watermark_advance_monotone:
  "(broker 0 = Ack \<longrightarrow>
      wm_orders (last_processed (snd (process_orders flt fmt broker [order] w))) =
        Some (o_updated_at order))
   \<and> (sorted (map o_updated_at batch) \<and> (\<forall>i<length batch. broker i = Ack) \<longrightarrow>
        watermark_trace flt fmt broker batch w =
          wm_orders (last_processed w) # map (\<lambda>r. Some (o_updated_at r)) batch
        \<and> sorted (tl (watermark_trace flt fmt broker batch w)))
   \<and> (sorted (map o_updated_at batch)
        \<and> (\<forall>r\<in>set batch. wm_orders (last_processed w) \<le> Some (o_updated_at r)) \<longrightarrow>
        sorted (watermark_trace flt fmt broker batch w))"
proof -
  have one: "wm_orders (last_processed (snd (process_orders flt fmt broker [order] w))) =
        Some (o_updated_at order)" if "broker 0 = Ack"
    using that by (simp add: process_orders_Cons_ack delivered_wm del: process_orders.simps(2))
  have two: "watermark_trace flt fmt broker batch w =
          wm_orders (last_processed w) # map (\<lambda>r. Some (o_updated_at r)) batch
        \<and> sorted (tl (watermark_trace flt fmt broker batch w))"
    if "sorted (map o_updated_at batch)" "\<forall>i<length batch. broker i = Ack"
    using watermark_trace_acks [OF that(2), of flt fmt w] sorted_map_Some [OF that(1)] by simp
  have three: "sorted (watermark_trace flt fmt broker batch w)"
    if "sorted (map o_updated_at batch)"
       "\<forall>r\<in>set batch. wm_orders (last_processed w) \<le> Some (o_updated_at r)"
    using that by (rule watermark_trace_sorted)
  show ?thesis using one two three by blast
qed

text \<open>Three rows in ascending order, with all publishes acknowledged and with the third failing.\<close>

theorem watermark_advance_monotone_witness:
  "wm_orders (last_processed (snd (process_orders example_float example_isoformat acks_all
      [order_at 1 (sec 0) (sec 100) ''SHIPPED''] fresh_world))) = Some (sec 100)
   \<and> watermark_trace example_float example_isoformat acks_all
      [order_at 1 (sec 0) (sec 100) ''SHIPPED'', order_at 2 (sec 0) (sec 200) ''SHIPPED'',
       order_at 3 (sec 0) (sec 300) ''SHIPPED''] fresh_world =
      [None, Some (sec 100), Some (sec 200), Some (sec 300)]
   \<and> sorted (watermark_trace example_float example_isoformat (fails_at 2)
      [order_at 1 (sec 0) (sec 100) ''SHIPPED'', order_at 2 (sec 0) (sec 200) ''SHIPPED'',
       order_at 3 (sec 0) (sec 300) ''SHIPPED''] (fresh_world :: rat world))"
proof -
  have srt: "sorted (map o_updated_at
      [order_at 1 (sec 0) (sec 100) ''SHIPPED'', order_at 2 (sec 0) (sec 200) ''SHIPPED'',
       order_at 3 (sec 0) (sec 300) ''SHIPPED''])"
    by (simp add: order_at_def sec_def)
  have lo: "\<forall>r\<in>set [order_at 1 (sec 0) (sec 100) ''SHIPPED'',
       order_at 2 (sec 0) (sec 200) ''SHIPPED'', order_at 3 (sec 0) (sec 300) ''SHIPPED''].
      wm_orders (last_processed (fresh_world :: rat world)) \<le> Some (o_updated_at r)"
    by (simp add: fresh_world_def)
  have a: "\<forall>i<length [order_at 1 (sec 0) (sec 100) ''SHIPPED'',
       order_at 2 (sec 0) (sec 200) ''SHIPPED'', order_at 3 (sec 0) (sec 300) ''SHIPPED''].
       acks_all i = Ack"
    by (simp add: acks_all_def)
  have a0: "acks_all 0 = Ack" by (simp add: acks_all_def)
  have wm0: "wm_orders (last_processed (fresh_world :: rat world)) = None"
    by (simp add: fresh_world_def)
  show ?thesis
    using watermark_advance_monotone [of acks_all example_float example_isoformat
        "order_at 1 (sec 0) (sec 100) ''SHIPPED''" fresh_world
        "[order_at 1 (sec 0) (sec 100) ''SHIPPED'', order_at 2 (sec 0) (sec 200) ''SHIPPED'',
          order_at 3 (sec 0) (sec 300) ''SHIPPED'']"]
      watermark_advance_monotone [of "fails_at 2" example_float example_isoformat
        "order_at 1 (sec 0) (sec 100) ''SHIPPED''" fresh_world
        "[order_at 1 (sec 0) (sec 100) ''SHIPPED'', order_at 2 (sec 0) (sec 200) ''SHIPPED'',
          order_at 3 (sec 0) (sec 300) ''SHIPPED'']"]
      srt lo a a0 wm0
    by (simp add: order_at_def)
qed

end
